theory Spec2Isabelle
  imports Main "HOL-Library.Word" "HOL-Library.Sublist"
begin

section \<open>JavaScript values used by the background script\<close>

text \<open>
  Numbers: \<^verbatim>\<open>settings.interval\<close> holds whatever \<^verbatim>\<open>Number(message.interval)\<close> or the
  stored value gives. The model has the integers and \<^verbatim>\<open>NaN\<close>; fractions and the
  infinities are left out, and integers are exact (doubles are, below \<open>2^53\<close>).
\<close>

datatype jsnum = NaN | Num int

text \<open>\<^verbatim>\<open>a * b\<close>, \<^verbatim>\<open>timeLeft--\<close> and \<^verbatim>\<open>timeLeft > 0\<close>.\<close>

fun jmul :: "jsnum \<Rightarrow> jsnum \<Rightarrow> jsnum" where
  "jmul (Num a) (Num b) = Num (a * b)"
| "jmul _ _ = NaN"

fun jdec :: "jsnum \<Rightarrow> jsnum" where
  "jdec (Num a) = Num (a - 1)"
| "jdec NaN = NaN"

fun jpositive :: "jsnum \<Rightarrow> bool" where
  "jpositive (Num a) = (0 < a)"
| "jpositive NaN = False"

text \<open>Truthiness of a number, as in \<^verbatim>\<open>result.clipboardInterval || 10\<close>.\<close>

fun jtruthy :: "jsnum \<Rightarrow> bool" where
  "jtruthy (Num a) = (a \<noteq> 0)"
| "jtruthy NaN = False"

text \<open>An awaited call either resolves with a value or rejects with an error message.\<close>

datatype 'a promise = Resolved 'a | Rejected string

section \<open>Timers of the host\<close>

text \<open>
  \<^verbatim>\<open>setTimeout\<close> and \<^verbatim>\<open>setInterval\<close> take their delay as a WebIDL \<^verbatim>\<open>long\<close>:
  \<^verbatim>\<open>NaN\<close> becomes 0, an integer is reduced to 32 bits signed, and a negative
  delay counts as 0.
\<close>

definition to_long :: "jsnum \<Rightarrow> int" where
  "to_long x = (case x of NaN \<Rightarrow> 0 | Num n \<Rightarrow> sint (word_of_int n :: 32 word))"

definition timer_delay :: "jsnum \<Rightarrow> nat" where
  "timer_delay ms = nat (max 0 (to_long ms))"

text \<open>
  The callbacks the background script registers, with the variables each closure
  captures:
  \<^item> \<open>CountdownTick timeLeft\<close>: the \<^verbatim>\<open>setInterval\<close> callback of \<^verbatim>\<open>handlePasteEvent\<close>;
  \<^item> \<open>CountdownExpire countdownInterval\<close>: the \<^verbatim>\<open>setTimeout\<close> callback of
    \<^verbatim>\<open>handlePasteEvent\<close>;
  \<^item> \<open>RestartedExpire\<close>: \<^verbatim>\<open>() => clearClipboard()\<close> of \<^verbatim>\<open>updateSettings\<close>;
  \<^item> \<open>BadgeReset\<close>: \<^verbatim>\<open>() => chrome.action.setBadgeText({ text: '' })\<close>.
\<close>

datatype callback =
    CountdownTick jsnum
  | CountdownExpire nat
  | RestartedExpire
  | BadgeReset

record timer =
  tid :: nat
  due :: nat
  cb :: callback

fun is_clear_callback :: "callback \<Rightarrow> bool" where
  "is_clear_callback (CountdownExpire _) = True"
| "is_clear_callback RestartedExpire = True"
| "is_clear_callback _ = False"

section \<open>State of the background script\<close>

record settings =
  interval :: jsnum
  enabled :: bool
  clearOnlyOnPasswordPaste :: bool

datatype badge_text = Text string | NumText jsnum

text \<open>
  What the script does to the outside, in order (newest last).
  \<open>ClearClipboardCalled\<close> records an entry into \<^verbatim>\<open>clearClipboard\<close>, \<open>ConsoleError\<close> a
  \<^verbatim>\<open>console.error\<close>.
\<close>

datatype effect =
    SetBadgeText badge_text
  | SetBadgeBackgroundColor string
  | StorageSetEnabled bool
  | StorageSetInterval jsnum
  | StorageSetPasswordOnly bool
  | ClearClipboardCalled
  | ConsoleError

text \<open>What is left to run of an async handler once its storage write settles.\<close>

datatype continuation = AfterIntervalSave | AfterPasswordOnlySave

record state =
  clearTimer :: "nat option"
  settings :: settings
  settingsInitialized :: bool
  now :: nat
  nextId :: nat
  timers :: "timer list"
  pending :: "continuation list"
  effects :: "effect list"

definition default_settings :: settings where
  "default_settings = \<lparr>interval = Num 10, enabled = True, clearOnlyOnPasswordPaste = False\<rparr>"

definition init_state :: state where
  "init_state = \<lparr>clearTimer = None, settings = default_settings, settingsInitialized = False,
     now = 0, nextId = 1, timers = [], pending = [], effects = []\<rparr>"

definition emit :: "effect \<Rightarrow> state \<Rightarrow> state" where
  "emit e st = st\<lparr>effects := effects st @ [e]\<rparr>"

definition setTimeout :: "callback \<Rightarrow> jsnum \<Rightarrow> state \<Rightarrow> nat \<times> state" where
  "setTimeout f ms st =
     (nextId st,
      st\<lparr>nextId := Suc (nextId st),
         timers := timers st @ [\<lparr>tid = nextId st, due = now st + timer_delay ms, cb = f\<rparr>]\<rparr>)"

definition setInterval :: "callback \<Rightarrow> jsnum \<Rightarrow> state \<Rightarrow> nat \<times> state" where
  "setInterval f ms st = setTimeout f ms st"

text \<open>Timeouts and intervals share one pool of ids.\<close>

definition clearTimeout :: "nat \<Rightarrow> state \<Rightarrow> state" where
  "clearTimeout i st = st\<lparr>timers := filter (\<lambda>t. tid t \<noteq> i) (timers st)\<rparr>"

definition clearInterval :: "nat \<Rightarrow> state \<Rightarrow> state" where
  "clearInterval i st = clearTimeout i st"

text \<open>
  The handle \<^verbatim>\<open>clearTimer\<close> is \<open>None\<close> for \<^verbatim>\<open>null\<close>; \<^verbatim>\<open>if (clearTimer)\<close> holds for
  a handle that is neither \<^verbatim>\<open>null\<close> nor 0. The clears that are pending:
\<close>

definition pending_clears :: "state \<Rightarrow> timer list" where
  "pending_clears st = filter (\<lambda>t. is_clear_callback (cb t)) (timers st)"


section \<open>The browser as the Clearer sees it\<close>

record tab =
  tab_id :: nat
  url :: "string option"

text \<open>
  One snapshot of the host for one run of \<^verbatim>\<open>clearClipboard\<close>: the same call gives
  the same answer throughout the run. \<open>tabsSendMessage\<close> and \<open>offscreenClear\<close>
  resolve with the truth value of \<^verbatim>\<open>response && response.success\<close>;
  \<open>offscreenPing\<close> and \<open>offscreenClear\<close> are indexed by the attempt;
  \<open>offscreenHasDocument\<close> is \<open>None\<close> where \<^verbatim>\<open>chrome.offscreen.hasDocument\<close> is
  missing. The errors of \<^verbatim>\<open>tabs.remove\<close>, \<^verbatim>\<open>windows.remove\<close> and
  \<^verbatim>\<open>closeDocument\<close> are swallowed by the script and have no field.
\<close>

record browser =
  tabsQueryActive :: "tab list promise"
  tabsQueryAll :: "tab list promise"
  executeScript :: "nat \<Rightarrow> unit promise"
  tabsSendMessage :: "nat \<Rightarrow> bool promise"
  offscreenApi :: bool
  offscreenHasDocument :: "bool promise option"
  offscreenCreateDocument :: "unit promise"
  offscreenPing :: "nat \<Rightarrow> bool"
  offscreenClear :: "nat \<Rightarrow> bool promise"
  tabsCreate :: "unit promise"
  windowsCreate :: "unit promise"

text \<open>\<^verbatim>\<open>tab.url && !tab.url.startsWith(p1) && ...\<close>\<close>

definition url_allowed :: "string list \<Rightarrow> tab \<Rightarrow> bool" where
  "url_allowed banned t =
     (case url t of None \<Rightarrow> False
      | Some u \<Rightarrow> u \<noteq> [] \<and> (\<forall>p \<in> set banned. \<not> prefix p u))"

definition resolved :: "'a promise \<Rightarrow> bool" where
  "resolved p = (case p of Resolved _ \<Rightarrow> True | Rejected _ \<Rightarrow> False)"

text \<open>Step 1 of \<^verbatim>\<open>clearClipboard\<close>: the active tab. True when the step returned.\<close>

definition tryActiveTab :: "browser \<Rightarrow> bool" where
  "tryActiveTab env =
     (case tabsQueryActive env of
        Rejected _ \<Rightarrow> False
      | Resolved tabs \<Rightarrow>
          (case tabs of
             [] \<Rightarrow> False
           | t # _ \<Rightarrow> url_allowed [''chrome://''] t \<and> resolved (executeScript env (tab_id t))))"

text \<open>Step 2: the first suitable tab of all tabs.\<close>

definition trySuitableTab :: "browser \<Rightarrow> bool" where
  "trySuitableTab env =
     (case tabsQueryAll env of
        Rejected _ \<Rightarrow> False
      | Resolved allTabs \<Rightarrow>
          (case filter (url_allowed [''chrome://'', ''chrome-extension://'', ''edge://'',
                                     ''about:'', ''moz-extension://'']) allTabs of
             [] \<Rightarrow> False
           | t # _ \<Rightarrow> resolved (executeScript env (tab_id t))))"

text \<open>Step 3: ask the content script of each tab in turn.\<close>

fun askTabs :: "browser \<Rightarrow> tab list \<Rightarrow> bool" where
  "askTabs env [] = False"
| "askTabs env (t # ts) =
     (if url_allowed [''chrome://'', ''chrome-extension://''] t
      then (case tabsSendMessage env (tab_id t) of
              Resolved True \<Rightarrow> True
            | _ \<Rightarrow> askTabs env ts)
      else askTabs env ts)"

definition tryContentScripts :: "browser \<Rightarrow> bool" where
  "tryContentScripts env =
     (case tabsQueryAll env of Rejected _ \<Rightarrow> False | Resolved allTabs \<Rightarrow> askTabs env allTabs)"

text \<open>\<^verbatim>\<open>pingOffscreen(retries, delay)\<close>: attempts \<open>i, i + 1, ...\<close>, \<open>k\<close> of them left.\<close>

fun pingFrom :: "browser \<Rightarrow> nat \<Rightarrow> nat \<Rightarrow> bool" where
  "pingFrom env i 0 = False"
| "pingFrom env i (Suc k) = (if offscreenPing env i then True else pingFrom env (Suc i) k)"

definition pingOffscreen :: "browser \<Rightarrow> nat \<Rightarrow> bool" where
  "pingOffscreen env retries = pingFrom env 0 retries"

definition ensureOffscreen :: "browser \<Rightarrow> bool" where
  "ensureOffscreen env =
     (if \<not> offscreenApi env then False
      else
        (case (case offscreenHasDocument env of None \<Rightarrow> Resolved False | Some h \<Rightarrow> h) of
           Rejected _ \<Rightarrow> False
         | Resolved has \<Rightarrow>
             if \<not> has \<and> \<not> resolved (offscreenCreateDocument env) then False
             else pingOffscreen env 5))"

text \<open>
  \<^verbatim>\<open>send()\<close> with its one retry, inside the \<^verbatim>\<open>try\<close> whose \<^verbatim>\<open>catch\<close> is empty: True
  when \<^verbatim>\<open>res && res.success\<close> was reached and true.
\<close>

definition offscreenSend :: "browser \<Rightarrow> bool" where
  "offscreenSend env =
     (case offscreenClear env 0 of
        Resolved res \<Rightarrow> res
      | Rejected _ \<Rightarrow> (case offscreenClear env 1 of Resolved res \<Rightarrow> res | Rejected _ \<Rightarrow> False))"

definition clearClipboardOffscreen :: "browser \<Rightarrow> bool" where
  "clearClipboardOffscreen env =
     (if \<not> ensureOffscreen env
      then (case tabsCreate env of
              Resolved _ \<Rightarrow> True
            | Rejected _ \<Rightarrow> resolved (windowsCreate env))
      else if offscreenSend env then True
      else resolved (windowsCreate env))"

datatype chain_result = ByActiveTab | BySuitableTab | ByContentScript | ByOffscreen | NoContext

definition clearChain :: "browser \<Rightarrow> chain_result" where
  "clearChain env =
     (if tryActiveTab env then ByActiveTab
      else if trySuitableTab env then BySuitableTab
      else if tryContentScripts env then ByContentScript
      else if clearClipboardOffscreen env then ByOffscreen
      else NoContext)"

section \<open>The functions of the background script\<close>

definition showClearedBadge :: "state \<Rightarrow> state" where
  "showClearedBadge st =
     snd (setTimeout BadgeReset (Num 2000)
            (emit (SetBadgeBackgroundColor ''#4CAF50'') (emit (SetBadgeText (Text ''OK'')) st)))"

text \<open>
  \<^verbatim>\<open>clearClipboard\<close>. Its awaits are collapsed: the chain runs against one snapshot and
  the badge is set at the time of the call. Every path leaves the outer \<^verbatim>\<open>try\<close>
  normally or through its \<^verbatim>\<open>catch\<close>, which only logs, so the promise resolves.
\<close>

definition clearClipboard :: "browser \<Rightarrow> state \<Rightarrow> state \<times> unit promise" where
  "clearClipboard env st0 =
     (let st1 = emit ClearClipboardCalled st0;
          st2 = (case clearTimer st1 of
                   None \<Rightarrow> st1
                 | Some i \<Rightarrow> if i \<noteq> 0 then (clearTimeout i st1)\<lparr>clearTimer := None\<rparr> else st1)
      in case clearChain env of
           NoContext \<Rightarrow> (emit ConsoleError st2, Resolved ())
         | _ \<Rightarrow> (showClearedBadge st2, Resolved ()))"

definition handlePasteEvent :: "state \<Rightarrow> state" where
  "handlePasteEvent st0 =
     (let st1 = (case clearTimer st0 of
                   None \<Rightarrow> st0
                 | Some i \<Rightarrow> if i \<noteq> 0 then clearTimeout i st0 else st0);
          timeLeft = interval (settings st1);
          st2 = emit (SetBadgeText (NumText timeLeft)) st1;
          st3 = emit (SetBadgeBackgroundColor ''#ff9800'') st2;
          (countdownInterval, st4) = setInterval (CountdownTick timeLeft) (Num 1000) st3;
          (t, st5) = setTimeout (CountdownExpire countdownInterval)
                       (jmul (interval (settings st4)) (Num 1000)) st4
      in st5\<lparr>clearTimer := Some t\<rparr>)"

text \<open>\<^verbatim>\<open>updateSettings\<close> up to its \<^verbatim>\<open>await\<close>, and from there on.\<close>

definition updateSettings_start :: "jsnum \<Rightarrow> state \<Rightarrow> state" where
  "updateSettings_start newInterval st =
     (emit (StorageSetInterval newInterval)
        (st\<lparr>settings := (settings st)\<lparr>interval := newInterval\<rparr>\<rparr>))
       \<lparr>pending := pending st @ [AfterIntervalSave]\<rparr>"

definition updateSettings_resume :: "unit promise \<Rightarrow> state \<Rightarrow> state" where
  "updateSettings_resume saved st =
     (case saved of
        Rejected _ \<Rightarrow> emit ConsoleError st
      | Resolved _ \<Rightarrow>
          (case clearTimer st of
             None \<Rightarrow> st
           | Some i \<Rightarrow>
               if i \<noteq> 0
               then (let (t, st') = setTimeout RestartedExpire
                                      (jmul (interval (settings st)) (Num 1000))
                                      (clearTimeout i st)
                     in st'\<lparr>clearTimer := Some t\<rparr>)
               else st))"

text \<open>The continuation of \<^verbatim>\<open>loadSettings\<close> after \<^verbatim>\<open>chrome.storage.sync.get\<close>.\<close>

record stored =
  clipboardInterval :: "jsnum option"
  extensionEnabled :: "bool option"
  storedClearOnlyOnPasswordPaste :: "bool option"

definition loadSettings :: "stored promise \<Rightarrow> state \<Rightarrow> state" where
  "loadSettings got st =
     (case got of
        Resolved result \<Rightarrow>
          st\<lparr>settings :=
               \<lparr>interval = (case clipboardInterval result of
                              None \<Rightarrow> Num 10
                            | Some v \<Rightarrow> if jtruthy v then v else Num 10),
                enabled = (extensionEnabled result \<noteq> Some False),
                clearOnlyOnPasswordPaste = (storedClearOnlyOnPasswordPaste result = Some True)\<rparr>,
             settingsInitialized := True\<rparr>
      | Rejected _ \<Rightarrow> st\<lparr>settings := default_settings, settingsInitialized := True\<rparr>)"

section \<open>The message router and the events of the background script\<close>

text \<open>
  The messages, with their fields after the coercions of the router:
  \<^verbatim>\<open>Boolean(message.isPassword)\<close>, \<^verbatim>\<open>Boolean(message.enabled)\<close>,
  \<^verbatim>\<open>Number(message.interval)\<close>, \<^verbatim>\<open>Boolean(message.value)\<close>.
\<close>

datatype message =
    PASTE_DETECTED bool
  | GET_SETTINGS
  | TOGGLE_EXTENSION bool
  | UPDATE_SETTINGS jsnum
  | UPDATE_PASSWORD_ONLY bool
  | CLEAR_CLIPBOARD_NOW
  | UnknownMessage

text \<open>
  A response is the settings object or \<^verbatim>\<open>{ success, message?, error? }\<close>.
\<close>

datatype response =
    SettingsResponse settings
  | Result (success: bool) (message_of: "string option") (error_of: "string option")

text \<open>
  The \<^verbatim>\<open>chrome.runtime.onMessage\<close> listener: the new state and the response. The
  response is \<open>None\<close> where it waits for a storage call (\<^verbatim>\<open>UPDATE_SETTINGS\<close>,
  \<^verbatim>\<open>UPDATE_PASSWORD_ONLY\<close>, and \<^verbatim>\<open>GET_SETTINGS\<close> before the settings are loaded).
\<close>

definition onMessage :: "browser \<Rightarrow> message \<Rightarrow> state \<Rightarrow> state \<times> response option" where
  "onMessage env m st =
     (case m of
        PASTE_DETECTED isPassword \<Rightarrow>
          ((if enabled (settings st)
            then (if \<not> clearOnlyOnPasswordPaste (settings st) \<or> isPassword
                  then handlePasteEvent st else st)
            else st),
           Some (Result True None None))
      | GET_SETTINGS \<Rightarrow>
          (if settingsInitialized st then (st, Some (SettingsResponse (settings st)))
           else (st, None))
      | TOGGLE_EXTENSION en \<Rightarrow>
          (let st1 = st\<lparr>settings := (settings st)\<lparr>enabled := en\<rparr>\<rparr>;
               st2 = (case clearTimer st1 of
                        None \<Rightarrow> st1
                      | Some i \<Rightarrow>
                          if \<not> en \<and> i \<noteq> 0
                          then emit (SetBadgeText (Text []))
                                 ((clearTimeout i st1)\<lparr>clearTimer := None\<rparr>)
                          else st1);
               st3 = (if \<not> en
                      then snd (setTimeout BadgeReset (Num 2000)
                                  (emit (SetBadgeBackgroundColor ''#888'')
                                     (emit (SetBadgeText (Text ''OFF'')) st2)))
                      else emit (SetBadgeText (Text [])) st2)
           in (emit (StorageSetEnabled en) st3, Some (Result True None None)))
      | UPDATE_SETTINGS newInterval \<Rightarrow> (updateSettings_start newInterval st, None)
      | UPDATE_PASSWORD_ONLY v \<Rightarrow>
          ((emit (StorageSetPasswordOnly v)
              (st\<lparr>settings := (settings st)\<lparr>clearOnlyOnPasswordPaste := v\<rparr>\<rparr>))
             \<lparr>pending := pending st @ [AfterPasswordOnlySave]\<rparr>,
           None)
      | CLEAR_CLIPBOARD_NOW \<Rightarrow>
          (if \<not> enabled (settings st)
           then (st, Some (Result False (Some ''Extension is disabled'') None))
           else (case clearClipboard env st of
                   (st', Resolved _) \<Rightarrow> (st', Some (Result True None None))
                 | (st', Rejected msg) \<Rightarrow> (st', Some (Result False None (Some msg)))))
      | UnknownMessage \<Rightarrow> (st, Some (Result False None (Some ''Unknown message type''))))"

text \<open>
  A timer of the host comes due: nothing happens for an id that is not pending or
  not yet due. A timeout is dropped before its callback runs; the interval is kept,
  with the new value of the \<^verbatim>\<open>timeLeft\<close> its closure holds.
\<close>

definition timerFires :: "browser \<Rightarrow> nat \<Rightarrow> state \<Rightarrow> state" where
  "timerFires env i st =
     (case find (\<lambda>t. tid t = i) (timers st) of
        None \<Rightarrow> st
      | Some t \<Rightarrow>
          if now st < due t then st
          else
            (case cb t of
               CountdownTick timeLeft \<Rightarrow>
                 (let timeLeft' = jdec timeLeft;
                      st1 = st\<lparr>timers :=
                                 map (\<lambda>u. if tid u = i
                                           then u\<lparr>due := now st + timer_delay (Num 1000),
                                                  cb := CountdownTick timeLeft'\<rparr>
                                           else u) (timers st)\<rparr>
                  in if jpositive timeLeft'
                     then emit (SetBadgeText (NumText timeLeft')) st1
                     else clearInterval i st1)
             | CountdownExpire countdownInterval \<Rightarrow>
                 fst (clearClipboard env (clearInterval countdownInterval (clearTimeout i st)))
             | RestartedExpire \<Rightarrow> fst (clearClipboard env (clearTimeout i st))
             | BadgeReset \<Rightarrow> emit (SetBadgeText (Text [])) (clearTimeout i st)))"

text \<open>
  A storage write settles: the continuation at position \<open>k\<close> of the waiting ones runs
  and answers its message.
\<close>

definition storageSetDone :: "nat \<Rightarrow> unit promise \<Rightarrow> state \<Rightarrow> state \<times> response option" where
  "storageSetDone k saved st =
     (if length (pending st) \<le> k then (st, None)
      else
        (let st1 = st\<lparr>pending := take k (pending st) @ drop (Suc k) (pending st)\<rparr>
         in case pending st ! k of
              AfterIntervalSave \<Rightarrow> (updateSettings_resume saved st1, Some (Result True None None))
            | AfterPasswordOnlySave \<Rightarrow>
                (case saved of
                   Resolved _ \<Rightarrow> (st1, Some (Result True None None))
                 | Rejected msg \<Rightarrow> (emit ConsoleError st1, Some (Result False None (Some msg))))))"

datatype event =
    Message message
  | Elapse nat
  | TimerFires nat
  | StorageSetDone nat "unit promise"
  | StorageGetDone "stored promise"

definition step :: "browser \<Rightarrow> event \<Rightarrow> state \<Rightarrow> state \<times> response option" where
  "step env ev st =
     (case ev of
        Message m \<Rightarrow> onMessage env m st
      | Elapse d \<Rightarrow> (st\<lparr>now := now st + d\<rparr>, None)
      | TimerFires i \<Rightarrow> (timerFires env i st, None)
      | StorageSetDone k saved \<Rightarrow> storageSetDone k saved st
      | StorageGetDone got \<Rightarrow> (loadSettings got st, None))"

fun run :: "(browser \<times> event) list \<Rightarrow> state \<Rightarrow> state" where
  "run [] st = st"
| "run ((env, ev) # evs) st = run evs (fst (step env ev st))"

section \<open>The popup\<close>

text \<open>
  \<^verbatim>\<open>autoSaveInterval\<close>, from the value \<^verbatim>\<open>parseInt(intervalInput.value)\<close> on: the message
  it sends, \<open>None\<close> where it shows the validation error and returns.
\<close>

definition autoSaveInterval :: "jsnum \<Rightarrow> message option" where
  "autoSaveInterval parsed =
     (case parsed of
        NaN \<Rightarrow> None
      | Num n \<Rightarrow> if n < 1 \<or> n > 300 then None else Some (UPDATE_SETTINGS (Num n)))"

section \<open>The content script\<close>

text \<open>
  Strings are lists of code units below 256 (Latin-1). The white space of
  \<^verbatim>\<open>trim()\<close> and of \<^verbatim>\<open>\s\<close> in that range: tab, line feed, vertical tab, form feed,
  carriage return, space, no-break space.
\<close>

definition js_whitespace :: "char \<Rightarrow> bool" where
  "js_whitespace c = (of_char c \<in> {9, 10, 11, 12, 13, 32, 160 :: nat})"

definition trim :: "string \<Rightarrow> string" where
  "trim s = rev (dropWhile js_whitespace (rev (dropWhile js_whitespace s)))"

definition lower_char :: "char \<Rightarrow> char" where
  "lower_char c =
     (let n = of_char c :: nat
      in if (65 \<le> n \<and> n \<le> 90) \<or> (192 \<le> n \<and> n \<le> 222 \<and> n \<noteq> 215)
         then char_of (n + 32) else c)"

definition toLowerCase :: "string \<Rightarrow> string" where
  "toLowerCase s = map lower_char s"

text \<open>\<^verbatim>\<open>hay.includes(needle)\<close>\<close>

definition js_includes :: "string \<Rightarrow> string \<Rightarrow> bool" where
  "js_includes hay needle = sublist needle hay"

text \<open>
  \<^verbatim>\<open>/(^|\s)(w1|w2|...)(\s|$)/.test(s)\<close>: one of the words stands at the start of
  the string or after white space, and is followed by white space or the end.
\<close>

definition word_here :: "string list \<Rightarrow> string \<Rightarrow> bool" where
  "word_here ws s =
     (\<exists>w \<in> set ws. prefix w s \<and>
        (case drop (length w) s of [] \<Rightarrow> True | c # _ \<Rightarrow> js_whitespace c))"

fun word_scan :: "string list \<Rightarrow> bool \<Rightarrow> string \<Rightarrow> bool" where
  "word_scan ws boundary [] = (boundary \<and> word_here ws [])"
| "word_scan ws boundary (c # cs) =
     ((boundary \<and> word_here ws (c # cs)) \<or> word_scan ws (js_whitespace c) cs)"

definition word_test :: "string list \<Rightarrow> string \<Rightarrow> bool" where
  "word_test ws s = word_scan ws True s"

text \<open>
  An element, with what \<^verbatim>\<open>isPasswordField\<close> reads of it: the local name of its tag
  (\<^verbatim>\<open>el instanceof HTMLInputElement\<close> is \<open>tagName el = ''input''\<close>), \<^verbatim>\<open>el.type\<close>,
  \<^verbatim>\<open>el.getAttribute('autocomplete')\<close>, \<^verbatim>\<open>el.name\<close>, \<^verbatim>\<open>el.id\<close>, the computed
  \<^verbatim>\<open>-webkit-text-security\<close> and the \<^verbatim>\<open>contenteditable\<close> attribute.
\<close>

record element =
  tagName :: string
  inputType :: string
  autocompleteAttr :: "string option"
  nameProp :: string
  idProp :: string
  textSecurity :: string
  contenteditableAttr :: "string option"

text \<open>
  What \<^verbatim>\<open>getPasteTarget\<close> returns: \<^verbatim>\<open>null\<close> or a node that is no element, or an
  element with its ancestors, the nearest first.
\<close>

datatype node = NotAnElement | Elem element "element list"

definition or_empty :: "string option \<Rightarrow> string" where
  "or_empty v = (case v of None \<Rightarrow> [] | Some s \<Rightarrow> s)"

text \<open>\<^verbatim>\<open>css && css.trim().toLowerCase() !== 'none'\<close>\<close>

definition masked :: "string \<Rightarrow> bool" where
  "masked css = (css \<noteq> [] \<and> toLowerCase (trim css) \<noteq> ''none'')"

text \<open>
  \<^verbatim>\<open>isPasswordField\<close> of the content script with the narrow rules: only the nearest
  \<^verbatim>\<open>input\<close> (\<^verbatim>\<open>el.closest('input')\<close>, the element itself included) is looked at.
\<close>

definition isPasswordField :: "node \<Rightarrow> bool" where
  "isPasswordField nd =
     (case nd of
        NotAnElement \<Rightarrow> False
      | Elem el ancestors \<Rightarrow>
          (case find (\<lambda>e. tagName e = ''input'') (el # ancestors) of
             None \<Rightarrow> False
           | Some input \<Rightarrow>
               if toLowerCase (inputType input) = ''password'' then True
               else if word_test [''current-password'', ''new-password'', ''one-time-code'']
                         (toLowerCase (or_empty (autocompleteAttr input))) then True
               else if masked (textSecurity input) then True
               else False))"

text \<open>
  \<^verbatim>\<open>isPasswordField\<close> of \<^verbatim>\<open>content.js\<close>: the rules of its \<^verbatim>\<open>HTMLInputElement\<close>
  branch, the selector of its \<^verbatim>\<open>closest\<close> call, and the function on the chain of the
  element and its ancestors.
\<close>

definition content_js_input_rules :: "element \<Rightarrow> bool" where
  "content_js_input_rules el =
     (if toLowerCase (inputType el) = ''password'' then True
      else if word_test [''current-password'', ''new-password'']
                (toLowerCase (or_empty (autocompleteAttr el))) then True
      else if js_includes (toLowerCase (nameProp el @ '' '' @ idProp el)) ''password'' then True
      else masked (textSecurity el))"

definition editable_selector :: "element \<Rightarrow> bool" where
  "editable_selector e =
     (tagName e = ''input'' \<or> tagName e = ''textarea'' \<or> contenteditableAttr e = Some ''true'')"

function content_js_isPasswordField_chain :: "element list \<Rightarrow> bool" where
  "content_js_isPasswordField_chain [] = False"
| "content_js_isPasswordField_chain (el # ancestors) =
     (if tagName el = ''input'' \<and> content_js_input_rules el then True
      else if editable_selector el then False
      else content_js_isPasswordField_chain
             (dropWhile (\<lambda>e. \<not> editable_selector e) ancestors))"
  by pat_completeness auto
termination
  by (relation "measure length") (auto simp: length_dropWhile_le less_Suc_eq_le)

definition content_js_isPasswordField :: "node \<Rightarrow> bool" where
  "content_js_isPasswordField nd =
     (case nd of
        NotAnElement \<Rightarrow> False
      | Elem el ancestors \<Rightarrow> content_js_isPasswordField_chain (el # ancestors))"

text \<open>
  A paste event as \<^verbatim>\<open>handlePasteEvent\<close> of the content script reads it: the target,
  and \<^verbatim>\<open>event.clipboardData\<close> (\<open>None\<close> when missing) with what its
  \<^verbatim>\<open>getData('text')\<close> does.
\<close>

datatype jsval = JString string | JFalsy | JTruthyOther

datatype clipboard_data = NoGetData | GetDataThrows | GetData jsval

record paste_event =
  target :: node
  clipboardData :: "clipboard_data option"

text \<open>
  The page's side of the extension: whether \<^verbatim>\<open>chrome.runtime && chrome.runtime.id\<close>
  holds, and the error message with which \<^verbatim>\<open>chrome.runtime.sendMessage\<close> throws, if
  it does. The state of the script is its flag \<^verbatim>\<open>extensionContextValid\<close>; the
  functions return it with the messages that went out.
\<close>

record page =
  runtimeAlive :: bool
  sendThrows :: "string option"

definition sendMessageSafely :: "page \<Rightarrow> message \<Rightarrow> bool \<Rightarrow> bool \<times> message list" where
  "sendMessageSafely pg m extensionContextValid =
     (if \<not> runtimeAlive pg then (False, [])
      else
        (case sendThrows pg of
           None \<Rightarrow> (extensionContextValid, [m])
         | Some msg \<Rightarrow>
             (if js_includes msg ''Extension context invalidated'' \<or>
                 js_includes msg ''chrome.runtime'' \<or>
                 js_includes msg ''Invocation of form''
              then (False, [])
              else (extensionContextValid, []))))"

definition notifyPasteEvent :: "page \<Rightarrow> bool \<Rightarrow> bool \<Rightarrow> bool \<times> message list" where
  "notifyPasteEvent pg isPasswordFieldPaste extensionContextValid =
     (if \<not> extensionContextValid then (extensionContextValid, [])
      else sendMessageSafely pg (PASTE_DETECTED isPasswordFieldPaste) extensionContextValid)"

text \<open>
  The \<^verbatim>\<open>text\<close> that \<^verbatim>\<open>handlePasteEvent\<close> of the content script computes,
  \<^verbatim>\<open>(event && event.clipboardData) ? (getData && getData('text')) || '' : ''\<close>;
  \<open>None\<close> where \<^verbatim>\<open>getData\<close> throws.
\<close>

definition paste_text :: "paste_event \<Rightarrow> jsval option" where
  "paste_text event =
     (case clipboardData event of
        None \<Rightarrow> Some (JString [])
      | Some NoGetData \<Rightarrow> Some (JString [])
      | Some GetDataThrows \<Rightarrow> None
      | Some (GetData JFalsy) \<Rightarrow> Some (JString [])
      | Some (GetData (JString s)) \<Rightarrow> Some (JString s)
      | Some (GetData JTruthyOther) \<Rightarrow> Some JTruthyOther)"

text \<open>
  \<^verbatim>\<open>handlePasteEvent\<close> of the content script, over the classifier of its file: the
  flag and the messages sent.
\<close>

definition content_handlePasteEvent ::
  "(node \<Rightarrow> bool) \<Rightarrow> page \<Rightarrow> paste_event \<Rightarrow> bool \<Rightarrow> bool \<times> message list" where
  "content_handlePasteEvent classify pg event extensionContextValid =
     (let isPwd = classify (target event)
      in case paste_text event of
           None \<Rightarrow> (extensionContextValid, [])
         | Some (JString text) \<Rightarrow>
             if trim text \<noteq> [] then notifyPasteEvent pg isPwd extensionContextValid
             else (extensionContextValid, [])
         | Some _ \<Rightarrow> (extensionContextValid, []))"

section \<open>Notions the properties are stated with\<close>

text \<open>
  A host in which no step of the Clearer can succeed: every tab is an internal
  page, injection and messaging fail, there is no offscreen API, and neither a tab
  nor a window can be created.
\<close>

definition no_context_browser :: browser where
  "no_context_browser =
     \<lparr>tabsQueryActive = Resolved [\<lparr>tab_id = 7, url = Some ''chrome://settings/''\<rparr>],
      tabsQueryAll = Resolved [\<lparr>tab_id = 7, url = Some ''chrome://settings/''\<rparr>,
                               \<lparr>tab_id = 8, url = Some ''chrome://extensions/''\<rparr>],
      executeScript = (\<lambda>_. Rejected ''Cannot access a chrome:// URL''),
      tabsSendMessage = (\<lambda>_. Rejected ''Receiving end does not exist''),
      offscreenApi = False,
      offscreenHasDocument = None,
      offscreenCreateDocument = Rejected ''No offscreen API'',
      offscreenPing = (\<lambda>_. False),
      offscreenClear = (\<lambda>_. Rejected ''Offscreen timeout''),
      tabsCreate = Rejected ''No current window'',
      windowsCreate = Rejected ''Cannot create window''\<rparr>"

text \<open>
  What holds of the timers in every state the script can reach: ids are positive and
  below the next id, no two pending timers share an id, every pending timer that
  would call \<^verbatim>\<open>clearClipboard\<close> is the one \<^verbatim>\<open>clearTimer\<close> holds, and the handle is
  never 0.
\<close>

definition coordinator_inv :: "state \<Rightarrow> bool" where
  "coordinator_inv st =
     (0 < nextId st \<and>
      (\<forall>t \<in> set (timers st). 0 < tid t \<and> tid t < nextId st) \<and>
      distinct (map tid (timers st)) \<and>
      (\<forall>t \<in> set (timers st). is_clear_callback (cb t) \<longrightarrow> clearTimer st = Some (tid t)) \<and>
      clearTimer st \<noteq> Some 0)"

text \<open>A countdown was started between two states: a clear is pending that was no timer before.\<close>

definition countdown_started :: "state \<Rightarrow> state \<Rightarrow> bool" where
  "countdown_started st st' = (\<exists>t \<in> set (pending_clears st'). t \<notin> set (timers st))"

text \<open>The number of calls of \<^verbatim>\<open>clearClipboard\<close> so far.\<close>

definition clear_count :: "state \<Rightarrow> nat" where
  "clear_count st = length (filter (\<lambda>e. e = ClearClipboardCalled) (effects st))"

text \<open>The domain of the delay: an integer from 1 to 300.\<close>

definition in_domain :: "jsnum \<Rightarrow> bool" where
  "in_domain v = (case v of NaN \<Rightarrow> False | Num n \<Rightarrow> 1 \<le> n \<and> n \<le> 300)"

text \<open>
  An event whose delay, if it brings one, passed the check of the popup: an
  \<^verbatim>\<open>UPDATE_SETTINGS\<close> that \<^verbatim>\<open>autoSaveInterval\<close> sends, a loaded
  \<^verbatim>\<open>clipboardInterval\<close> that is absent, falsy or in the domain.
\<close>

fun well_sourced :: "event \<Rightarrow> bool" where
  "well_sourced (Message (UPDATE_SETTINGS v)) = (autoSaveInterval v = Some (UPDATE_SETTINGS v))"
| "well_sourced (StorageGetDone (Resolved r)) =
     (case clipboardInterval r of None \<Rightarrow> True | Some v \<Rightarrow> \<not> jtruthy v \<or> in_domain v)"
| "well_sourced _ = True"

text \<open>An event that cannot enable the extension again.\<close>

fun keeps_disabled :: "event \<Rightarrow> bool" where
  "keeps_disabled (Message (TOGGLE_EXTENSION en)) = (\<not> en)"
| "keeps_disabled (StorageGetDone _) = False"
| "keeps_disabled _ = True"

text \<open>The texts written to the badge so far, oldest first.\<close>

fun badge_of :: "effect \<Rightarrow> badge_text list" where
  "badge_of (SetBadgeText b) = [b]"
| "badge_of _ = []"

definition badge_texts :: "state \<Rightarrow> badge_text list" where
  "badge_texts st = concat (map badge_of (effects st))"

text \<open>
  A countdown of 10 seconds whose badge ticks three times, then a second paste at
  3000 ms.
\<close>

definition restart_trace :: "(browser \<times> event) list" where
  "restart_trace =
     [(no_context_browser, Message (PASTE_DETECTED False)),
      (no_context_browser, Elapse 1000), (no_context_browser, TimerFires 1),
      (no_context_browser, Elapse 1000), (no_context_browser, TimerFires 1),
      (no_context_browser, Elapse 1000), (no_context_browser, TimerFires 1),
      (no_context_browser, Message (PASTE_DETECTED False))]"

text \<open>An element, and a node, with other values of \<^verbatim>\<open>name\<close> and \<^verbatim>\<open>id\<close>.\<close>

definition rename :: "(element \<Rightarrow> string) \<Rightarrow> (element \<Rightarrow> string) \<Rightarrow> element \<Rightarrow> element" where
  "rename f g e = e\<lparr>nameProp := f e, idProp := g e\<rparr>"

fun rename_node :: "(element \<Rightarrow> string) \<Rightarrow> (element \<Rightarrow> string) \<Rightarrow> node \<Rightarrow> node" where
  "rename_node f g NotAnElement = NotAnElement"
| "rename_node f g (Elem el ancestors) = Elem (rename f g el) (map (rename f g) ancestors)"

text \<open>
  Two \<^verbatim>\<open>input\<close> elements of type \<^verbatim>\<open>text\<close>: one whose name contains the word
  password and that matches no narrow rule, one marked
  \<^verbatim>\<open>autocomplete="One-Time-Code"\<close>.
\<close>

definition hint_field :: element where
  "hint_field = \<lparr>tagName = ''input'', inputType = ''text'', autocompleteAttr = None,
     nameProp = ''password_hint'', idProp = ''hint'', textSecurity = ''none'',
     contenteditableAttr = None\<rparr>"

definition otp_field :: element where
  "otp_field = \<lparr>tagName = ''input'', inputType = ''text'',
     autocompleteAttr = Some ''One-Time-Code'',
     nameProp = ''code'', idProp = ''code'', textSecurity = ''none'',
     contenteditableAttr = None\<rparr>"

section \<open>Properties\<close>

subsection \<open>The manual clear\<close>

text \<open>
  C1. The claim: when every step of the fallback chain fails, the clear is reported
  as failed, and \<^verbatim>\<open>CLEAR_CLIPBOARD_NOW\<close> gets a response that is no success. The code
  at such a host: the chain ends in \<open>NoContext\<close>, \<^verbatim>\<open>clearClipboard\<close> logs and
  resolves all the same, and the router answers \<^verbatim>\<open>{ success: true }\<close>.
\<close>

theorem clear_now_exhausted_answers_success:
  "clearChain no_context_browser = NoContext \<and>
   snd (step no_context_browser (Message CLEAR_CLIPBOARD_NOW) init_state)
     = Some (Result True None None)"
  by (simp add: clearChain_def no_context_browser_def tryActiveTab_def trySuitableTab_def
      tryContentScripts_def clearClipboardOffscreen_def ensureOffscreen_def url_allowed_def
      resolved_def step_def onMessage_def init_state_def default_settings_def
      clearClipboard_def emit_def)

text \<open>
  The same answer at every host: \<^verbatim>\<open>clearClipboard\<close> never rejects, so an enabled
  extension answers every manual clear with success.
\<close>

lemma clear_now_enabled_answers_success:
  "enabled (settings st) \<Longrightarrow>
   snd (step env (Message CLEAR_CLIPBOARD_NOW) st) = Some (Result True None None)"
  by (simp add: step_def onMessage_def clearClipboard_def Let_def
      split: chain_result.splits option.splits)

text \<open>
  C10. A \<^verbatim>\<open>CLEAR_CLIPBOARD_NOW\<close> that arrives while \<^verbatim>\<open>enabled\<close> is false is answered
  \<^verbatim>\<open>{ success: false, message: 'Extension is disabled' }\<close> and leaves the whole state
  as it was: settings, timers, and the record of effects, so the Clearer has not
  been called.
\<close>

theorem clear_now_while_disabled:
  "\<not> enabled (settings st) \<Longrightarrow>
   step env (Message CLEAR_CLIPBOARD_NOW) st
     = (st, Some (Result False (Some ''Extension is disabled'') None))"
  by (simp add: step_def onMessage_def)

theorem clear_now_while_disabled_witness:
  "\<not> enabled (settings (init_state\<lparr>settings := default_settings\<lparr>enabled := False\<rparr>\<rparr>)) \<and>
   step no_context_browser (Message CLEAR_CLIPBOARD_NOW)
        (init_state\<lparr>settings := default_settings\<lparr>enabled := False\<rparr>\<rparr>)
     = (init_state\<lparr>settings := default_settings\<lparr>enabled := False\<rparr>\<rparr>,
        Some (Result False (Some ''Extension is disabled'') None))"
  using clear_now_while_disabled
    [of "init_state\<lparr>settings := default_settings\<lparr>enabled := False\<rparr>\<rparr>" no_context_browser]
  by simp

subsection \<open>The timers in reachable states\<close>

lemma inv_init: "coordinator_inv init_state"
  by (simp add: coordinator_inv_def init_state_def)

lemma inv_emit [simp]: "coordinator_inv (emit e st) = coordinator_inv st"
  by (simp add: coordinator_inv_def emit_def)

lemma pending_clears_emit [simp]: "pending_clears (emit e st) = pending_clears st"
  by (simp add: pending_clears_def emit_def)

lemma emit_fields [simp]:
  "clearTimer (emit e st) = clearTimer st" "settings (emit e st) = settings st"
  "now (emit e st) = now st" "nextId (emit e st) = nextId st"
  "timers (emit e st) = timers st" "pending (emit e st) = pending st"
  "settingsInitialized (emit e st) = settingsInitialized st"
  by (simp_all add: emit_def)

lemma pending_clears_handle_update [simp]:
  "pending_clears (st\<lparr>clearTimer := h\<rparr>) = pending_clears st"
  by (simp add: pending_clears_def)

lemma clearTimeout_emit [simp]: "clearTimeout i (emit e st) = emit e (clearTimeout i st)"
  by (simp add: clearTimeout_def emit_def)

lemma inv_clearTimeout: "coordinator_inv st \<Longrightarrow> coordinator_inv (clearTimeout i st)"
  by (auto simp: coordinator_inv_def clearTimeout_def distinct_map_filter)

lemma no_clears_after_cancel:
  "coordinator_inv st \<Longrightarrow> clearTimer st = Some i \<Longrightarrow> pending_clears (clearTimeout i st) = []"
  by (auto simp: coordinator_inv_def clearTimeout_def pending_clears_def filter_empty_conv)

lemma no_clears_without_handle:
  "coordinator_inv st \<Longrightarrow> clearTimer st = None \<Longrightarrow> pending_clears st = []"
  by (auto simp: coordinator_inv_def pending_clears_def filter_empty_conv)

lemma no_clears_zero_handle:
  "coordinator_inv st \<Longrightarrow> clearTimer st = Some 0 \<Longrightarrow> pending_clears st = []"
  by (auto simp: coordinator_inv_def pending_clears_def filter_empty_conv)

lemma inv_drop_handle:
  "coordinator_inv st \<Longrightarrow> pending_clears st = [] \<Longrightarrow> coordinator_inv (st\<lparr>clearTimer := None\<rparr>)"
  by (auto simp: coordinator_inv_def pending_clears_def filter_empty_conv)

lemma inv_setTimeout_other:
  "coordinator_inv st \<Longrightarrow> \<not> is_clear_callback f \<Longrightarrow> coordinator_inv (snd (setTimeout f ms st))"
  by (auto simp: coordinator_inv_def setTimeout_def)

lemma pending_clears_setTimeout_other:
  "\<not> is_clear_callback f \<Longrightarrow> pending_clears (snd (setTimeout f ms st)) = pending_clears st"
  by (simp add: pending_clears_def setTimeout_def)

lemma inv_setTimeout_clear:
  "coordinator_inv st \<Longrightarrow> pending_clears st = [] \<Longrightarrow>
   coordinator_inv ((snd (setTimeout f ms st))\<lparr>clearTimer := Some (fst (setTimeout f ms st))\<rparr>)"
  by (auto simp: coordinator_inv_def setTimeout_def pending_clears_def filter_empty_conv)

lemma pending_clears_setTimeout_clear:
  "pending_clears st = [] \<Longrightarrow> is_clear_callback f \<Longrightarrow>
   pending_clears ((snd (setTimeout f ms st))\<lparr>clearTimer := h\<rparr>)
     = [\<lparr>tid = nextId st, due = now st + timer_delay ms, cb = f\<rparr>]"
  by (simp add: pending_clears_def setTimeout_def)


lemma inv_handlePasteEvent: "coordinator_inv st \<Longrightarrow> coordinator_inv (handlePasteEvent st)"
  by (auto simp: handlePasteEvent_def coordinator_inv_def setTimeout_def setInterval_def
      clearTimeout_def emit_def Let_def distinct_map_filter split: option.splits)

lemma pending_clears_handlePasteEvent:
  "coordinator_inv st \<Longrightarrow>
   pending_clears (handlePasteEvent st)
     = [\<lparr>tid = Suc (nextId st),
         due = now st + timer_delay (jmul (interval (settings st)) (Num 1000)),
         cb = CountdownExpire (nextId st)\<rparr>]"
  by (auto simp: handlePasteEvent_def coordinator_inv_def setTimeout_def setInterval_def
      clearTimeout_def emit_def Let_def pending_clears_def filter_empty_conv split: option.splits)


lemma inv_showClearedBadge: "coordinator_inv st \<Longrightarrow> coordinator_inv (showClearedBadge st)"
  by (simp add: showClearedBadge_def inv_setTimeout_other)

lemma pending_clears_showClearedBadge [simp]: "pending_clears (showClearedBadge st) = pending_clears st"
  by (simp add: showClearedBadge_def pending_clears_setTimeout_other)

lemma inv_clearClipboard: "coordinator_inv st \<Longrightarrow> coordinator_inv (fst (clearClipboard env st))"
  by (auto simp: clearClipboard_def Let_def inv_showClearedBadge inv_clearTimeout inv_drop_handle
      no_clears_after_cancel split: option.splits chain_result.splits)

lemma pending_clears_clearClipboard:
  "coordinator_inv st \<Longrightarrow> pending_clears (fst (clearClipboard env st)) = []"
  by (auto simp: clearClipboard_def Let_def no_clears_after_cancel no_clears_without_handle
      no_clears_zero_handle split: option.splits chain_result.splits)


lemma inv_retick:
  "coordinator_inv st \<Longrightarrow>
   coordinator_inv (st\<lparr>timers := map (\<lambda>u. if tid u = i then u\<lparr>due := d, cb := CountdownTick v\<rparr> else u)
                                     (timers st)\<rparr>)"
proof -
  have tids: "tid \<circ> (\<lambda>u. if tid u = i then u\<lparr>due := d, cb := CountdownTick v\<rparr> else u) = tid"
    by (auto simp: fun_eq_iff)
  assume "coordinator_inv st"
  then show ?thesis
    unfolding coordinator_inv_def by (auto simp: tids split: if_splits)
qed

lemma inv_clearInterval: "coordinator_inv st \<Longrightarrow> coordinator_inv (clearInterval i st)"
  by (simp add: clearInterval_def inv_clearTimeout)

lemma inv_timerFires: "coordinator_inv st \<Longrightarrow> coordinator_inv (timerFires env i st)"
  by (auto simp: timerFires_def Let_def inv_retick inv_clearInterval inv_clearTimeout
      inv_clearClipboard split: option.splits callback.splits)

lemma inv_updateSettings_resume:
  "coordinator_inv st \<Longrightarrow> coordinator_inv (updateSettings_resume saved st)"
  by (auto simp: updateSettings_resume_def inv_setTimeout_clear [unfolded setTimeout_def, simplified]
      setTimeout_def no_clears_after_cancel inv_clearTimeout
      split: promise.splits option.splits)


lemma inv_other_fields [simp]:
  "coordinator_inv (st\<lparr>settings := s\<rparr>) = coordinator_inv st"
  "coordinator_inv (st\<lparr>pending := p\<rparr>) = coordinator_inv st"
  "coordinator_inv (st\<lparr>now := n\<rparr>) = coordinator_inv st"
  "coordinator_inv (st\<lparr>settingsInitialized := b\<rparr>) = coordinator_inv st"
  by (simp_all add: coordinator_inv_def)

lemma inv_toggle:
  "coordinator_inv st \<Longrightarrow> coordinator_inv (fst (onMessage env (TOGGLE_EXTENSION en) st))"
proof -
  assume inv: "coordinator_inv st"
  let ?st1 = "st\<lparr>settings := (settings st)\<lparr>enabled := en\<rparr>\<rparr>"
  have inv1: "coordinator_inv ?st1" using inv by simp
  have cancel: "coordinator_inv ((clearTimeout i ?st1)\<lparr>clearTimer := None\<rparr>)"
    if "clearTimer st = Some i" for i
    using inv1 that by (simp add: inv_drop_handle inv_clearTimeout no_clears_after_cancel)
  show ?thesis
    using inv1 cancel
    by (auto simp: onMessage_def Let_def inv_setTimeout_other split: option.splits)
qed

lemma inv_onMessage: "coordinator_inv st \<Longrightarrow> coordinator_inv (fst (onMessage env m st))"
proof (cases m)
  case (TOGGLE_EXTENSION en)
  assume "coordinator_inv st"
  then show ?thesis unfolding TOGGLE_EXTENSION by (rule inv_toggle)
next
  case CLEAR_CLIPBOARD_NOW
  assume inv: "coordinator_inv st"
  have "coordinator_inv (fst (clearClipboard env st))" using inv by (rule inv_clearClipboard)
  then show ?thesis
    by (auto simp: CLEAR_CLIPBOARD_NOW onMessage_def inv split: prod.splits promise.splits)
qed (auto simp: onMessage_def inv_handlePasteEvent updateSettings_start_def)

lemma inv_storageSetDone:
  "coordinator_inv st \<Longrightarrow> coordinator_inv (fst (storageSetDone k saved st))"
  by (auto simp: storageSetDone_def Let_def inv_updateSettings_resume
      split: continuation.splits promise.splits)

lemma inv_loadSettings: "coordinator_inv st \<Longrightarrow> coordinator_inv (loadSettings got st)"
  by (auto simp: loadSettings_def split: promise.splits)

lemma inv_step: "coordinator_inv st \<Longrightarrow> coordinator_inv (fst (step env ev st))"
  by (cases ev) (simp_all add: step_def inv_onMessage inv_timerFires inv_storageSetDone
      inv_loadSettings)

lemma inv_run: "coordinator_inv st \<Longrightarrow> coordinator_inv (run evs st)"
  by (induction evs arbitrary: st) (auto simp: inv_step)





lemma inv_reachable: "coordinator_inv (run evs init_state)"
  by (simp add: inv_run inv_init)

lemmas eval_defs = step_def onMessage_def handlePasteEvent_def clearClipboard_def
  updateSettings_start_def updateSettings_resume_def storageSetDone_def loadSettings_def
  timerFires_def showClearedBadge_def setTimeout_def setInterval_def clearTimeout_def
  clearInterval_def emit_def init_state_def default_settings_def pending_clears_def
  timer_delay_def to_long_def Let_def

lemma find_SomeD: "find P xs = Some x \<Longrightarrow> x \<in> set xs \<and> P x"
  by (induction xs) (auto split: if_splits)

lemma clear_count_simps [simp]:
  "clear_count (emit e st) = clear_count st + (if e = ClearClipboardCalled then 1 else 0)"
  "clear_count (snd (setTimeout f ms st)) = clear_count st"
  "clear_count (clearTimeout i st) = clear_count st"
  "clear_count (clearInterval i st) = clear_count st"
  "clear_count (st\<lparr>clearTimer := h\<rparr>) = clear_count st"
  "clear_count (st\<lparr>settings := s\<rparr>) = clear_count st"
  "clear_count (st\<lparr>pending := p\<rparr>) = clear_count st"
  "clear_count (st\<lparr>now := n\<rparr>) = clear_count st"
  "clear_count (st\<lparr>timers := ts\<rparr>) = clear_count st"
  by (simp_all add: clear_count_def emit_def setTimeout_def clearTimeout_def clearInterval_def)

lemma disabled_timerFires:
  assumes "pending_clears st = []"
  shows "settings (timerFires env i st) = settings st \<and>
         clearTimer (timerFires env i st) = clearTimer st \<and>
         pending_clears (timerFires env i st) = [] \<and>
         clear_count (timerFires env i st) = clear_count st"
proof (cases "find (\<lambda>t. tid t = i) (timers st)")
  case None
  then show ?thesis using assms by (simp add: timerFires_def)
next
  case (Some t)
  then have "t \<in> set (timers st)" by (auto dest: find_SomeD)
  then have nc: "\<not> is_clear_callback (cb t)"
    using assms by (auto simp: pending_clears_def filter_empty_conv)
  have noclear: "\<forall>u \<in> set (timers st). \<not> is_clear_callback (cb u)"
    using assms by (auto simp: pending_clears_def filter_empty_conv)
  show ?thesis
    using Some nc noclear
    by (cases "cb t")
       (auto simp: timerFires_def Let_def pending_clears_def filter_empty_conv clearInterval_def
          clearTimeout_def emit_def clear_count_def)
qed

lemma disabled_step:
  assumes "\<not> enabled (settings st)" "clearTimer st = None" "pending_clears st = []"
    and "keeps_disabled ev"
  shows "\<not> enabled (settings (fst (step env ev st))) \<and>
         clearTimer (fst (step env ev st)) = None \<and>
         pending_clears (fst (step env ev st)) = [] \<and>
         clear_count (fst (step env ev st)) = clear_count st"
proof (cases ev)
  case (Message m)
  show ?thesis
    using assms unfolding Message
    by (cases m)
       (auto simp: step_def onMessage_def updateSettings_start_def Let_def
          pending_clears_setTimeout_other setTimeout_def emit_def pending_clears_def clear_count_def)
next
  case (Elapse d)
  then show ?thesis using assms by (simp add: step_def pending_clears_def)
next
  case (TimerFires i)
  then show ?thesis using assms disabled_timerFires [of st env i] by (simp add: step_def)
next
  case (StorageSetDone k saved)
  then show ?thesis
    using assms
    by (auto simp: step_def storageSetDone_def updateSettings_resume_def Let_def pending_clears_def
        split: continuation.splits promise.splits)
next
  case (StorageGetDone g)
  then show ?thesis using assms by simp
qed

lemma disabled_run:
  assumes "\<not> enabled (settings st)" "clearTimer st = None" "pending_clears st = []"
    and "\<forall>(env, ev) \<in> set evs. keeps_disabled ev"
  shows "clear_count (run evs st) = clear_count st \<and> pending_clears (run evs st) = []"
  using assms
proof (induction evs arbitrary: st)
  case Nil
  then show ?case by simp
next
  case (Cons a evs)
  obtain env ev where a: "a = (env, ev)" by (cases a)
  have k: "keeps_disabled ev" using Cons.prems(4) a by simp
  note s = disabled_step [OF Cons.prems(1-3) k, of env]
  have "clear_count (run evs (fst (step env ev st))) = clear_count (fst (step env ev st)) \<and>
        pending_clears (run evs (fst (step env ev st))) = []"
    using Cons.prems(4) s by (intro Cons.IH) auto
  then show ?case using s by (simp add: a)
qed

subsection \<open>Pastes and the countdown\<close>

text \<open>
  C5. In every state the script can reach, a \<^verbatim>\<open>PASTE_DETECTED\<close> message is answered
  \<^verbatim>\<open>{ success: true }\<close>, and it starts a countdown (a clear becomes pending that was
  not there before) exactly when \<^verbatim>\<open>enabled\<close> is true and either
  \<^verbatim>\<open>clearOnlyOnPasswordPaste\<close> is false or the message says the paste went into a
  password field.
\<close>

theorem paste_detected_starts_countdown_iff:
  assumes "st = run evs init_state"
  shows "snd (step env (Message (PASTE_DETECTED isPassword)) st) = Some (Result True None None) \<and>
         countdown_started st (fst (step env (Message (PASTE_DETECTED isPassword)) st))
           = (enabled (settings st) \<and> (\<not> clearOnlyOnPasswordPaste (settings st) \<or> isPassword))"
proof -
  have inv: "coordinator_inv st" using assms by (simp add: inv_reachable)
  have old: "\<not> countdown_started st st"
    by (auto simp: countdown_started_def pending_clears_def)
  have new: "countdown_started st (handlePasteEvent st)"
    using inv
    by (auto simp: countdown_started_def pending_clears_handlePasteEvent coordinator_inv_def)
  show ?thesis
    using old new by (simp add: step_def onMessage_def)
qed

theorem paste_detected_starts_countdown_iff_witness:
  "countdown_started init_state
     (fst (step no_context_browser (Message (PASTE_DETECTED False)) init_state)) \<and>
   \<not> countdown_started
       (run [(no_context_browser, Message (UPDATE_PASSWORD_ONLY True))] init_state)
       (fst (step no_context_browser (Message (PASTE_DETECTED False))
          (run [(no_context_browser, Message (UPDATE_PASSWORD_ONLY True))] init_state))) \<and>
   countdown_started
       (run [(no_context_browser, Message (UPDATE_PASSWORD_ONLY True))] init_state)
       (fst (step no_context_browser (Message (PASTE_DETECTED True))
          (run [(no_context_browser, Message (UPDATE_PASSWORD_ONLY True))] init_state)))"
  using paste_detected_starts_countdown_iff [of init_state "[]" no_context_browser False]
    paste_detected_starts_countdown_iff
      [of "run [(no_context_browser, Message (UPDATE_PASSWORD_ONLY True))] init_state"
          "[(no_context_browser, Message (UPDATE_PASSWORD_ONLY True))]" no_context_browser False]
    paste_detected_starts_countdown_iff
      [of "run [(no_context_browser, Message (UPDATE_PASSWORD_ONLY True))] init_state"
          "[(no_context_browser, Message (UPDATE_PASSWORD_ONLY True))]" no_context_browser True]
  by (simp add: eval_defs)



subsection \<open>Disabling during a countdown\<close>

lemma toggle_off:
  assumes inv: "coordinator_inv st"
  shows "snd (onMessage env (TOGGLE_EXTENSION False) st) = Some (Result True None None) \<and>
         \<not> enabled (settings (fst (onMessage env (TOGGLE_EXTENSION False) st))) \<and>
         clearTimer (fst (onMessage env (TOGGLE_EXTENSION False) st)) = None \<and>
         pending_clears (fst (onMessage env (TOGGLE_EXTENSION False) st)) = [] \<and>
         clear_count (fst (onMessage env (TOGGLE_EXTENSION False) st)) = clear_count st"
proof (cases "clearTimer st")
  case None
  then have "pending_clears st = []" using inv by (simp add: no_clears_without_handle)
  then show ?thesis
    using None
    by (simp add: onMessage_def Let_def setTimeout_def pending_clears_def clear_count_def
        emit_def)
next
  case (Some i)
  then have "i \<noteq> 0" using inv by (auto simp: coordinator_inv_def)
  moreover have "pending_clears (clearTimeout i st) = []"
    using inv Some by (rule no_clears_after_cancel)
  ultimately show ?thesis
    using Some
    by (simp add: onMessage_def Let_def setTimeout_def pending_clears_def clearTimeout_def
        clear_count_def emit_def)
qed

text \<open>
  C6. A \<^verbatim>\<open>TOGGLE_EXTENSION\<close> with \<^verbatim>\<open>enabled: false\<close> that arrives while a clear is
  pending leaves the extension disabled, \<^verbatim>\<open>clearTimer\<close> null and no clear pending,
  and does not call \<^verbatim>\<open>clearClipboard\<close>; nor does any later run of events that does
  not enable the extension again, whichever timers come due in it.
\<close>

theorem disable_cancels_without_clearing:
  assumes "st = run evs init_state"
    and "pending_clears st \<noteq> []"
    and "st' = fst (step env (Message (TOGGLE_EXTENSION False)) st)"
    and "\<forall>(b, ev) \<in> set later. keeps_disabled ev"
  shows "\<not> enabled (settings st') \<and> clearTimer st' = None \<and> pending_clears st' = [] \<and>
         clear_count st' = clear_count st \<and>
         clear_count (run later st') = clear_count st"
proof -
  have inv: "coordinator_inv st" using assms(1) by (simp add: inv_reachable)
  have st': "st' = fst (onMessage env (TOGGLE_EXTENSION False) st)"
    using assms(3) by (simp add: step_def)
  note t = toggle_off [OF inv, of env]
  have "clear_count (run later st') = clear_count st'"
    using t assms(4) disabled_run [of st' later] by (simp add: st')
  then show ?thesis using t by (simp add: st')
qed

theorem disable_cancels_without_clearing_witness:
  "pending_clears (run [(no_context_browser, Message (PASTE_DETECTED False)),
                        (no_context_browser, Elapse 4000)] init_state) \<noteq> [] \<and>
   clear_count
     (run [(no_context_browser, Elapse 6000), (no_context_browser, TimerFires 2),
           (no_context_browser, TimerFires 1)]
        (fst (step no_context_browser (Message (TOGGLE_EXTENSION False))
           (run [(no_context_browser, Message (PASTE_DETECTED False)),
                 (no_context_browser, Elapse 4000)] init_state)))) = 0"
  using disable_cancels_without_clearing
    [of "run [(no_context_browser, Message (PASTE_DETECTED False)),
              (no_context_browser, Elapse 4000)] init_state"
        "[(no_context_browser, Message (PASTE_DETECTED False)),
          (no_context_browser, Elapse 4000)]"
        _ no_context_browser
        "[(no_context_browser, Elapse 6000), (no_context_browser, TimerFires 2),
          (no_context_browser, TimerFires 1)]"]
  by (simp add: eval_defs clear_count_def)

subsection \<open>Changing the delay during a countdown\<close>






subsection \<open>The domain of the delay\<close>

lemma interval_step:
  "interval (settings (fst (step env ev st))) =
     (case ev of
        Message (UPDATE_SETTINGS v) \<Rightarrow> v
      | StorageGetDone (Resolved r) \<Rightarrow>
          (case clipboardInterval r of None \<Rightarrow> Num 10 | Some v \<Rightarrow> if jtruthy v then v else Num 10)
      | StorageGetDone (Rejected m) \<Rightarrow> Num 10
      | _ \<Rightarrow> interval (settings st))"
proof (cases ev)
  case (Message m)
  then show ?thesis
    by (cases m)
       (auto simp: eval_defs split: option.splits chain_result.splits)
next
  case (TimerFires i)
  then show ?thesis
    by (auto simp: eval_defs split: option.splits chain_result.splits callback.splits)
next
  case (StorageSetDone k saved)
  then show ?thesis
    by (auto simp: eval_defs split: option.splits continuation.splits promise.splits)
qed (auto simp: eval_defs split: promise.splits)

lemma in_domain_step:
  "in_domain (interval (settings st)) \<Longrightarrow> well_sourced ev \<Longrightarrow>
   in_domain (interval (settings (fst (step env ev st))))"
  unfolding interval_step
  by (auto simp: in_domain_def autoSaveInterval_def
      split: event.splits message.splits promise.splits option.splits jsnum.splits if_splits)

lemma in_domain_run:
  "in_domain (interval (settings st)) \<Longrightarrow> \<forall>(b, ev) \<in> set evs. well_sourced ev \<Longrightarrow>
   in_domain (interval (settings (run evs st)))"
proof (induction evs arbitrary: st)
  case Nil
  then show ?case by simp
next
  case (Cons a evs)
  obtain env ev where a: "a = (env, ev)" by (cases a)
  have "in_domain (interval (settings (fst (step env ev st))))"
    using Cons.prems a by (intro in_domain_step) auto
  then show ?case using Cons.prems by (simp add: a Cons.IH)
qed

text \<open>
  C7, as the code has it. The delay starts as 10. The check that a delay is an
  integer from 1 to 300 is in the popup: \<^verbatim>\<open>autoSaveInterval\<close> sends an
  \<^verbatim>\<open>UPDATE_SETTINGS\<close> exactly for such a value. The background script stores the
  number of any \<^verbatim>\<open>UPDATE_SETTINGS\<close> it gets. So the delay is in the domain after
  every run of events whose \<^verbatim>\<open>UPDATE_SETTINGS\<close> messages are ones the popup sends
  and whose loaded \<^verbatim>\<open>clipboardInterval\<close> is absent, falsy or in the domain.
\<close>

theorem delay_domain_kept_by_popup:
  "interval (settings init_state) = Num 10 \<and>
   (autoSaveInterval parsed = Some m \<longleftrightarrow> in_domain parsed \<and> m = UPDATE_SETTINGS parsed) \<and>
   interval (settings (fst (step env (Message (UPDATE_SETTINGS v)) st))) = v \<and>
   ((\<forall>(b, ev) \<in> set evs. well_sourced ev) \<longrightarrow>
      in_domain (interval (settings (run evs init_state))))"
proof -
  have a: "interval (settings init_state) = Num 10"
    by (simp add: init_state_def default_settings_def)
  have b: "autoSaveInterval parsed = Some m \<longleftrightarrow> in_domain parsed \<and> m = UPDATE_SETTINGS parsed"
    by (auto simp: autoSaveInterval_def in_domain_def split: jsnum.splits)
  have c: "interval (settings (fst (step env (Message (UPDATE_SETTINGS v)) st))) = v"
    by (simp add: interval_step)
  have d: "(\<forall>(b, ev) \<in> set evs. well_sourced ev) \<longrightarrow>
             in_domain (interval (settings (run evs init_state)))"
    using in_domain_run [of init_state evs] a by (simp add: in_domain_def)
  show ?thesis using a b c d by blast
qed

theorem delay_domain_kept_by_popup_witness:
  "autoSaveInterval (Num 5) = Some (UPDATE_SETTINGS (Num 5)) \<and>
   autoSaveInterval (Num 0) = None \<and> autoSaveInterval NaN = None \<and>
   autoSaveInterval (Num 301) = None \<and>
   interval (settings (run [(no_context_browser, Message (UPDATE_SETTINGS (Num 5))),
                            (no_context_browser, StorageSetDone 0 (Resolved ()))] init_state))
     = Num 5 \<and>
   in_domain (interval (settings
      (run [(no_context_browser, Message (UPDATE_SETTINGS (Num 5))),
            (no_context_browser, StorageSetDone 0 (Resolved ()))] init_state)))"
  using delay_domain_kept_by_popup
    [of "Num 5" "UPDATE_SETTINGS (Num 5)" no_context_browser "Num 5" init_state
        "[(no_context_browser, Message (UPDATE_SETTINGS (Num 5))),
          (no_context_browser, StorageSetDone 0 (Resolved ()))]"]
  by (simp add: eval_defs autoSaveInterval_def in_domain_def)

text \<open>
  C7 as stated fails at the background script: it stores 0, 1000 and \<^verbatim>\<open>NaN\<close> when
  an \<^verbatim>\<open>UPDATE_SETTINGS\<close> brings them.
\<close>

theorem coordinator_stores_unchecked_delay:
  "in_domain (interval (settings init_state)) \<and>
   \<not> in_domain (interval (settings
        (fst (step no_context_browser (Message (UPDATE_SETTINGS (Num 0))) init_state)))) \<and>
   \<not> in_domain (interval (settings
        (fst (step no_context_browser (Message (UPDATE_SETTINGS (Num 1000))) init_state)))) \<and>
   \<not> in_domain (interval (settings
        (fst (step no_context_browser (Message (UPDATE_SETTINGS NaN)) init_state))))"
  by (simp add: eval_defs in_domain_def)

subsection \<open>Cancelling the callbacks of a countdown\<close>

text \<open>What holds of the clear callback: a cancelled timer never runs, an expiry clears once.\<close>

lemma find_by_id:
  "distinct (map tid ts) \<Longrightarrow> t \<in> set ts \<Longrightarrow> find (\<lambda>u. tid u = tid t) ts = Some t"
  by (induction ts) (auto simp: rev_image_eqI)

lemma cancelled_timer_never_fires:
  "i \<notin> tid ` set (timers st) \<Longrightarrow> timerFires env i st = st"
proof -
  assume "i \<notin> tid ` set (timers st)"
  then have "find (\<lambda>t. tid t = i) (timers st) = None"
    by (auto simp: find_None_iff)
  then show ?thesis by (simp add: timerFires_def)
qed

lemma clear_count_clearClipboard:
  "clear_count (fst (clearClipboard env st)) = Suc (clear_count st)"
  by (auto simp: clearClipboard_def Let_def showClearedBadge_def clear_count_def emit_def
      setTimeout_def clearTimeout_def split: option.splits chain_result.splits)

lemma expiry_clears_once:
  assumes "coordinator_inv st" "t \<in> set (timers st)" "is_clear_callback (cb t)" "due t \<le> now st"
  shows "clear_count (timerFires env (tid t) st) = Suc (clear_count st) \<and>
         pending_clears (timerFires env (tid t) st) = []"
proof -
  have f: "find (\<lambda>u. tid u = tid t) (timers st) = Some t"
    using assms(1,2) by (intro find_by_id) (auto simp: coordinator_inv_def)
  have i1: "coordinator_inv (clearTimeout (tid t) st)"
    using assms(1) by (rule inv_clearTimeout)
  have i2: "coordinator_inv (clearInterval j (clearTimeout (tid t) st))" for j
    using i1 by (rule inv_clearInterval)
  show ?thesis
    using f assms(3,4) i1 i2
    by (cases "cb t")
       (simp_all add: timerFires_def clear_count_clearClipboard pending_clears_clearClipboard
          clearInterval_def)
qed

text \<open>
  C2. The claim: a new countdown cancels the clear callback and the per-second
  badge callback of the one before. The code cancels the clear callback only. After
  the second paste of \<open>restart_trace\<close> the interval of the first countdown (id 1) is
  still pending beside the new one (id 3), and when both come due at 4000 the badge
  shows 6, from the old countdown, and then 9.
\<close>

theorem restart_leaves_old_badge_ticker:
  "timers (run restart_trace init_state) =
     [\<lparr>tid = 1, due = 4000, cb = CountdownTick (Num 7)\<rparr>,
      \<lparr>tid = 3, due = 4000, cb = CountdownTick (Num 10)\<rparr>,
      \<lparr>tid = 4, due = 13000, cb = CountdownExpire 3\<rparr>] \<and>
   badge_texts (run (restart_trace @
        [(no_context_browser, Elapse 1000), (no_context_browser, TimerFires 1),
         (no_context_browser, TimerFires 3)]) init_state) =
     [NumText (Num 10), NumText (Num 9), NumText (Num 8), NumText (Num 7),
      NumText (Num 10), NumText (Num 6), NumText (Num 9)]"
  by (simp add: restart_trace_def badge_texts_def eval_defs)

subsection \<open>The content script: blank pastes\<close>

lemma trim_blank_iff: "trim s = [] \<longleftrightarrow> (\<forall>c \<in> set s. js_whitespace c)"
proof
  assume "\<forall>c \<in> set s. js_whitespace c"
  then have "dropWhile js_whitespace s = []" by simp
  then show "trim s = []" unfolding trim_def by (simp del: dropWhile_eq_Nil_conv)
next
  assume "trim s = []"
  then have all: "\<forall>c \<in> set (dropWhile js_whitespace s). js_whitespace c"
    by (simp add: trim_def)
  have "dropWhile js_whitespace s = []"
  proof (rule ccontr)
    assume ne: "dropWhile js_whitespace s \<noteq> []"
    then have "\<not> js_whitespace (hd (dropWhile js_whitespace s))" by (rule hd_dropWhile)
    moreover have "hd (dropWhile js_whitespace s) \<in> set (dropWhile js_whitespace s)"
      using ne by simp
    ultimately show False using all by blast
  qed
  then show "\<forall>c \<in> set s. js_whitespace c" by simp
qed

text \<open>
  C9. When the text that \<^verbatim>\<open>handlePasteEvent\<close> of the content script reads from a
  paste event is empty or has only white space, no message is sent, whatever the
  target, the classifier and the state of the extension context.
\<close>

theorem blank_paste_sends_nothing:
  assumes "paste_text event = Some (JString text)" and "\<forall>c \<in> set text. js_whitespace c"
  shows "snd (content_handlePasteEvent classify pg event valid) = []"
  using assms by (simp add: content_handlePasteEvent_def trim_blank_iff)

theorem blank_paste_sends_nothing_witness:
  "paste_text \<lparr>target = Elem hint_field [],
                clipboardData = Some (GetData (JString [CHR 0x20, CHR 0x09, CHR 0xA0]))\<rparr>
     = Some (JString [CHR 0x20, CHR 0x09, CHR 0xA0]) \<and>
   snd (content_handlePasteEvent isPasswordField
          \<lparr>runtimeAlive = True, sendThrows = None\<rparr>
          \<lparr>target = Elem hint_field [],
            clipboardData = Some (GetData (JString [CHR 0x20, CHR 0x09, CHR 0xA0]))\<rparr> True) = [] \<and>
   snd (content_handlePasteEvent isPasswordField
          \<lparr>runtimeAlive = True, sendThrows = None\<rparr>
          \<lparr>target = Elem hint_field [], clipboardData = Some (GetData (JString ''hello''))\<rparr> True)
     = [PASTE_DETECTED False]"
  using blank_paste_sends_nothing
    [of "\<lparr>target = Elem hint_field [],
           clipboardData = Some (GetData (JString [CHR 0x20, CHR 0x09, CHR 0xA0]))\<rparr>"
        "[CHR 0x20, CHR 0x09, CHR 0xA0]" isPasswordField
        "\<lparr>runtimeAlive = True, sendThrows = None\<rparr>" True]
  by (simp add: paste_text_def js_whitespace_def content_handlePasteEvent_def trim_def
      notifyPasteEvent_def sendMessageSafely_def isPasswordField_def hint_field_def
      toLowerCase_def lower_char_def word_test_def word_here_def masked_def or_empty_def)

subsection \<open>The content script: password fields\<close>

text \<open>
  The scan for the words of \<^verbatim>\<open>autocomplete\<close> is the regular expression
  \<^verbatim>\<open>(^|\s)(w1|w2|...)(\s|$)\<close>: a word stands somewhere in the string, with nothing or
  white space before it and nothing or white space after it.
\<close>

lemma word_here_iff:
  "word_here ws s \<longleftrightarrow>
     (\<exists>w post. s = w @ post \<and> w \<in> set ws \<and> (post = [] \<or> js_whitespace (hd post)))"
proof -
  have tail: "(case post of [] \<Rightarrow> True | c # _ \<Rightarrow> js_whitespace c)
                \<longleftrightarrow> (post = [] \<or> js_whitespace (hd post))" for post
    by (cases post) auto
  have "word_here ws s \<longleftrightarrow>
          (\<exists>w \<in> set ws. \<exists>post. s = w @ post \<and>
             (case drop (length w) s of [] \<Rightarrow> True | c # _ \<Rightarrow> js_whitespace c))"
    unfolding word_here_def prefix_def by blast
  also have "\<dots> \<longleftrightarrow> (\<exists>w \<in> set ws. \<exists>post. s = w @ post \<and> (post = [] \<or> js_whitespace (hd post)))"
    by (rule bex_cong [OF refl]) (auto simp: tail)
  finally show ?thesis by blast
qed

lemma word_scan_iff:
  "word_scan ws b s \<longleftrightarrow>
     (b \<and> word_here ws s) \<or>
     (\<exists>pre w post. pre \<noteq> [] \<and> s = pre @ w @ post \<and> w \<in> set ws \<and>
        js_whitespace (last pre) \<and> (post = [] \<or> js_whitespace (hd post)))"
proof (induction s arbitrary: b)
  case Nil
  then show ?case by simp
next
  case (Cons c cs)
  have split: "(\<exists>pre w post. pre \<noteq> [] \<and> c # cs = pre @ w @ post \<and> w \<in> set ws \<and>
                  js_whitespace (last pre) \<and> (post = [] \<or> js_whitespace (hd post)))
               \<longleftrightarrow>
               (js_whitespace c \<and> word_here ws cs) \<or>
               (\<exists>pre w post. pre \<noteq> [] \<and> cs = pre @ w @ post \<and> w \<in> set ws \<and>
                  js_whitespace (last pre) \<and> (post = [] \<or> js_whitespace (hd post)))"
    (is "?L \<longleftrightarrow> ?A \<or> ?B")
  proof
    assume ?L
    then obtain pre w post where p: "pre \<noteq> []" "c # cs = pre @ w @ post" "w \<in> set ws"
      "js_whitespace (last pre)" "post = [] \<or> js_whitespace (hd post)" by blast
    from p(1,2) obtain pre' where pre: "pre = c # pre'" "cs = pre' @ w @ post"
      by (cases pre) auto
    show "?A \<or> ?B"
    proof (cases "pre' = []")
      case True
      then have "js_whitespace c" "cs = w @ post" using p(4) pre by auto
      then have ?A using p(3,5) unfolding word_here_iff by blast
      then show ?thesis ..
    next
      case False
      then have "js_whitespace (last pre')" using p(4) pre(1) by simp
      then have ?B using False pre(2) p(3,5) by blast
      then show ?thesis ..
    qed
  next
    assume "?A \<or> ?B"
    then show ?L
    proof
      assume ?A
      then obtain w post where "cs = w @ post" "w \<in> set ws" "post = [] \<or> js_whitespace (hd post)"
        and c: "js_whitespace c" unfolding word_here_iff by blast
      then have "[c] \<noteq> [] \<and> c # cs = [c] @ w @ post \<and> w \<in> set ws \<and>
                 js_whitespace (last [c]) \<and> (post = [] \<or> js_whitespace (hd post))"
        by simp
      then show ?L by blast
    next
      assume ?B
      then obtain pre w post where p: "pre \<noteq> []" "cs = pre @ w @ post" "w \<in> set ws"
        "js_whitespace (last pre)" "post = [] \<or> js_whitespace (hd post)" by blast
      then have "c # pre \<noteq> [] \<and> c # cs = (c # pre) @ w @ post \<and> w \<in> set ws \<and>
                 js_whitespace (last (c # pre)) \<and> (post = [] \<or> js_whitespace (hd post))"
        by simp
      then show ?L by blast
    qed
  qed
  have "word_scan ws b (c # cs) \<longleftrightarrow> (b \<and> word_here ws (c # cs)) \<or> (?A \<or> ?B)"
    by (simp only: word_scan.simps Cons.IH)
  then show ?case by (simp only: split)
qed

lemma word_test_iff:
  "word_test ws s \<longleftrightarrow>
     (\<exists>pre w post. s = pre @ w @ post \<and> w \<in> set ws \<and>
        (pre = [] \<or> js_whitespace (last pre)) \<and> (post = [] \<or> js_whitespace (hd post)))"
  (is "_ \<longleftrightarrow> ?R")
proof
  assume "word_test ws s"
  then consider (start) "word_here ws s"
    | (later) pre w post where "pre \<noteq> []" "s = pre @ w @ post" "w \<in> set ws"
        "js_whitespace (last pre)" "post = [] \<or> js_whitespace (hd post)"
    unfolding word_test_def word_scan_iff by blast
  then show ?R
  proof cases
    case start
    then obtain w post where "s = [] @ w @ post" "w \<in> set ws"
      "post = [] \<or> js_whitespace (hd post)"
      unfolding word_here_iff by auto
    then show ?thesis by blast
  next
    case later
    then show ?thesis by blast
  qed
next
  assume ?R
  then obtain pre w post where p: "s = pre @ w @ post" "w \<in> set ws"
    "pre = [] \<or> js_whitespace (last pre)" "post = [] \<or> js_whitespace (hd post)"
    by blast
  show "word_test ws s"
  proof (cases "pre = []")
    case True
    then have "word_here ws s" using p unfolding word_here_iff by auto
    then show ?thesis unfolding word_test_def word_scan_iff by simp
  next
    case False
    then have "\<exists>pre w post. pre \<noteq> [] \<and> s = pre @ w @ post \<and> w \<in> set ws \<and>
        js_whitespace (last pre) \<and> (post = [] \<or> js_whitespace (hd post))"
      using p by blast
    then show ?thesis unfolding word_test_def word_scan_iff by simp
  qed
qed

lemma find_input_rename:
  "find (\<lambda>e. tagName e = ''input'') (map (rename f g) xs)
     = map_option (rename f g) (find (\<lambda>e. tagName e = ''input'') xs)"
  by (induction xs) (auto simp: rename_def)

text \<open>
  C8, as the code has it. The \<^verbatim>\<open>isPasswordField\<close> with the narrow rules gives the same
  answer whatever the \<^verbatim>\<open>name\<close> and \<^verbatim>\<open>id\<close> of the element and of its ancestors
  are: it is true exactly when the nearest \<^verbatim>\<open>input\<close> has type \<^verbatim>\<open>password\<close>, or an
  \<^verbatim>\<open>autocomplete\<close> with one of the words \<^verbatim>\<open>current-password\<close>, \<^verbatim>\<open>new-password\<close>,
  \<^verbatim>\<open>one-time-code\<close>, or a \<^verbatim>\<open>-webkit-text-security\<close> that is set and not
  \<^verbatim>\<open>none\<close>. The \<^verbatim>\<open>isPasswordField\<close> of \<^verbatim>\<open>content.js\<close> takes every \<^verbatim>\<open>input\<close> whose
  name or id contains the word password for a password field.
\<close>

theorem narrow_rules_ignore_name_and_id:
  "isPasswordField (rename_node f g nd) = isPasswordField nd \<and>
   (isPasswordField (Elem el ancestors) \<longleftrightarrow>
      (\<exists>input. find (\<lambda>e. tagName e = ''input'') (el # ancestors) = Some input \<and>
         (toLowerCase (inputType input) = ''password'' \<or>
          word_test [''current-password'', ''new-password'', ''one-time-code'']
            (toLowerCase (or_empty (autocompleteAttr input))) \<or>
          masked (textSecurity input)))) \<and>
   (tagName el = ''input'' \<and>
    js_includes (toLowerCase (nameProp el @ '' '' @ idProp el)) ''password''
      \<longrightarrow> content_js_isPasswordField (Elem el ancestors))"
proof -
  have a: "isPasswordField (rename_node f g nd) = isPasswordField nd"
  proof (cases nd)
    case NotAnElement
    then show ?thesis by simp
  next
    case (Elem e as)
    have "find (\<lambda>e. tagName e = ''input'') (rename f g e # map (rename f g) as)
            = map_option (rename f g) (find (\<lambda>e. tagName e = ''input'') (e # as))"
      using find_input_rename [of f g "e # as"] by simp
    then show ?thesis
      unfolding Elem
      by (cases "find (\<lambda>e. tagName e = ''input'') (e # as)")
         (simp_all add: isPasswordField_def rename_def del: find.simps)
  qed
  have b: "isPasswordField (Elem el ancestors) \<longleftrightarrow>
      (\<exists>input. find (\<lambda>e. tagName e = ''input'') (el # ancestors) = Some input \<and>
         (toLowerCase (inputType input) = ''password'' \<or>
          word_test [''current-password'', ''new-password'', ''one-time-code'']
            (toLowerCase (or_empty (autocompleteAttr input))) \<or>
          masked (textSecurity input)))"
    by (cases "find (\<lambda>e. tagName e = ''input'') (el # ancestors)")
       (simp_all add: isPasswordField_def del: find.simps)
  have c: "tagName el = ''input'' \<and>
      js_includes (toLowerCase (nameProp el @ '' '' @ idProp el)) ''password''
      \<longrightarrow> content_js_isPasswordField (Elem el ancestors)"
    by (simp add: content_js_isPasswordField_def content_js_input_rules_def)
  show ?thesis using a b c by blast
qed

theorem narrow_rules_ignore_name_and_id_witness:
  "\<not> isPasswordField (Elem hint_field []) \<and>
   \<not> isPasswordField (rename_node (\<lambda>_. ''user_password'') (\<lambda>_. ''password'') (Elem hint_field [])) \<and>
   isPasswordField (Elem otp_field []) \<and>
   content_js_isPasswordField (Elem hint_field [])"
proof -
  have plain: "\<not> isPasswordField (Elem hint_field [])" by code_simp
  have otp: "isPasswordField (Elem otp_field [])" by code_simp
  have named: "tagName hint_field = ''input'' \<and>
      js_includes (toLowerCase (nameProp hint_field @ '' '' @ idProp hint_field)) ''password''"
    by code_simp
  show ?thesis
    using narrow_rules_ignore_name_and_id
      [of "\<lambda>_. ''user_password''" "\<lambda>_. ''password''" "Elem hint_field []" hint_field "[]"]
      plain otp named
    by simp
qed

text \<open>
  C8 as stated fails for \<^verbatim>\<open>content.js\<close>: an \<^verbatim>\<open>input\<close> of type \<^verbatim>\<open>text\<close> named
  \<^verbatim>\<open>password_hint\<close> matches none of the narrow rules and is classified as a
  password field there.
\<close>

theorem content_js_classifies_by_name:
  "\<not> isPasswordField (Elem hint_field []) \<and> content_js_isPasswordField (Elem hint_field [])"
  by code_simp

end
